theory Spec2Isabelle
  imports Main "HOL-Library.Word"
begin

section \<open>Values and errors\<close>

text \<open>
  A shallow embedding of \<^verbatim>\<open>gvariant.js\<close>. Byte buffers are lists of 8-bit words;
  positions and sizes are \<open>int\<close> (the source computes them as JavaScript numbers and they
  can leave the buffer, also below zero). Signature strings are \<open>string\<close>: their alphabet
  is ASCII, and a character stands for one UTF-16 code unit below \<open>0x100\<close>. Text values
  are lists of UTF-16 code units.
\<close>

type_synonym byte = "8 word"
type_synonym buffer = "byte list"
type_synonym jsstring = "nat list"

text \<open>
  The exceptions of the program and of its host. \<open>TypeError_invalid_type_string\<close> is the
  \<^verbatim>\<open>throw new TypeError('invalid type string: ' + str)\<close> of \<open>parseType\<close>;
  \<open>TypeError_undefined\<close> is the TypeError JavaScript raises when a property of
  \<^verbatim>\<open>undefined\<close> is read; \<open>RangeError_offset\<close> is the \<^verbatim>\<open>throw RangeError()\<close> of
  \<open>offsetInfo\<close> and \<open>writeOffsets\<close>; \<open>RangeError_buffer\<close> is the RangeError of a Node
  Buffer read outside the buffer (\<^verbatim>\<open>ERR_OUT_OF_RANGE\<close>, \<^verbatim>\<open>Index out of range\<close>);
  \<open>RangeError_string_length\<close> is the \<^verbatim>\<open>RangeError: Invalid string length\<close> of a string
  concatenation that exceeds the longest string of the engine, and
  \<open>Error_string_too_long\<close> the \<^verbatim>\<open>ERR_STRING_TOO_LONG\<close> of \<^verbatim>\<open>buf.toString\<close> there.
  \<open>NotInDomain\<close> marks a value handed to a writer that is outside the type's domain,
  and \<open>NotModelled\<close> a step of the host that the model leaves open: the rendering of
  a floating-point number, or of an integer above \<open>2^53\<close>, as a property key, and an
  assignment to \<^verbatim>\<open>__proto__\<close> that replaces the prototype of an object.
\<close>

datatype error =
    TypeError_invalid_type_string
  | TypeError_undefined
  | RangeError_offset
  | RangeError_buffer
  | RangeError_string_length
  | Error_string_too_long
  | NotInDomain
  | NotModelled

text \<open>
  Parsed values. Numbers read from the integer types are integers; a double is kept as
  its 64-bit pattern. An object built by the array reader is an association list in
  property enumeration order; a variant is the record \<^verbatim>\<open>{ type: ..., value: ... }\<close>.
\<close>

datatype jsval =
    VNum int
  | VDouble "64 word"
  | VBool bool
  | VStr jsstring
  | VNull
  | VArr "jsval list"
  | VObj "(jsstring \<times> jsval) list"
  | VVariant (vtype: string) (vvalue: jsval)

text \<open>Exceptions propagate: the rest of a computation is skipped.\<close>

definition bind_e :: "error + 'a \<Rightarrow> ('a \<Rightarrow> error + 'b) \<Rightarrow> error + 'b" where
  "bind_e m f = (case m of Inl e \<Rightarrow> Inl e | Inr x \<Rightarrow> f x)"

section \<open>The host: JavaScript arithmetic and strings\<close>

text \<open>The remainder operator \<^verbatim>\<open>%\<close> of JavaScript takes the sign of the dividend.\<close>

definition js_rem :: "int \<Rightarrow> int \<Rightarrow> int" where
  "js_rem a b = sgn a * (\<bar>a\<bar> mod \<bar>b\<bar>)"

text \<open>\<^verbatim>\<open>x | 0\<close> on an integral number: the number modulo \<open>2^32\<close>, read as signed.\<close>

definition to_int32 :: "int \<Rightarrow> int" where
  "to_int32 x = (x + 2 ^ 31) mod 2 ^ 32 - 2 ^ 31"

text \<open>
  The longest string of the engine, \<^verbatim>\<open>buffer.constants.MAX_STRING_LENGTH\<close> (V8 on a
  64-bit platform), in UTF-16 code units.
\<close>

definition MAX_STRING_LENGTH :: int where
  "MAX_STRING_LENGTH = 0x1fffffe8"

text \<open>\<^verbatim>\<open>signature[index]\<close>: \<^verbatim>\<open>undefined\<close> outside the string.\<close>

definition char_at :: "string \<Rightarrow> nat \<Rightarrow> char option" where
  "char_at s i = (if i < length s then Some (s ! i) else None)"

text \<open>\<^verbatim>\<open>s.substr(i, n)\<close> and \<^verbatim>\<open>s.slice(a, b)\<close>, for the non-negative arguments of the source.\<close>

definition substr :: "string \<Rightarrow> nat \<Rightarrow> nat \<Rightarrow> string" where
  "substr s i n = take n (drop i s)"

definition slice_str :: "string \<Rightarrow> nat \<Rightarrow> nat \<Rightarrow> string" where
  "slice_str s a b = take (b - a) (drop a s)"

text \<open>\<^verbatim>\<open>str.indexOf('\0')\<close>: the first index of the code unit, or \<open>-1\<close>.\<close>

fun indexOf :: "jsstring \<Rightarrow> nat \<Rightarrow> int" where
  "indexOf [] c = -1"
| "indexOf (x # xs) c = (if x = c then 0 else (let r = indexOf xs c in if r < 0 then -1 else r + 1))"

text \<open>\<^verbatim>\<open>str.substring(0, n)\<close> for \<open>n \<ge> 0\<close>.\<close>

definition substring0 :: "jsstring \<Rightarrow> int \<Rightarrow> jsstring" where
  "substring0 s n = take (nat n) s"

text \<open>The decimal digits of a number that is not negative, and \<^verbatim>\<open>String(n)\<close> for an integer.\<close>

function digits :: "int \<Rightarrow> jsstring" where
  "digits n = (if n < 10 then [nat (48 + n)] else digits (n div 10) @ [nat (48 + n mod 10)])"
  by pat_completeness auto
termination
  by (relation "measure nat") auto

declare digits.simps [simp del]

definition int_to_string :: "int \<Rightarrow> jsstring" where
  "int_to_string n = (if n < 0 then 45 # digits (- n) else digits n)"

section \<open>The host: UTF-8 and ASCII\<close>

text \<open>
  \<^verbatim>\<open>buf.toString('utf-8', ...)\<close>: the decoder of the Encoding Standard, as Node uses it.
  An ill-formed sequence gives U+FFFD and decoding resumes at the byte that broke it;
  a code point above U+FFFF gives a surrogate pair.
\<close>

definition cont_in :: "nat \<Rightarrow> nat \<Rightarrow> nat \<Rightarrow> bool" where
  "cont_in lo hi c = (lo \<le> c \<and> c \<le> hi)"

definition utf16_units :: "nat \<Rightarrow> jsstring" where
  "utf16_units cp =
     (if cp < 0x10000 then [cp]
      else [0xD800 + (cp - 0x10000) div 0x400, 0xDC00 + (cp - 0x10000) mod 0x400])"

fun utf8_decode_nat :: "nat list \<Rightarrow> jsstring" where
  "utf8_decode_nat [] = []"
| "utf8_decode_nat (b # bs) =
     (if b < 0x80 then b # utf8_decode_nat bs
      else if 0xC2 \<le> b \<and> b \<le> 0xDF then
        (case bs of
           [] \<Rightarrow> [0xFFFD]
         | c1 # r1 \<Rightarrow>
             if cont_in 0x80 0xBF c1
             then ((b - 0xC0) * 64 + (c1 - 0x80)) # utf8_decode_nat r1
             else 0xFFFD # utf8_decode_nat (c1 # r1))
      else if 0xE0 \<le> b \<and> b \<le> 0xEF then
        (case bs of
           [] \<Rightarrow> [0xFFFD]
         | c1 # r1 \<Rightarrow>
             if cont_in (if b = 0xE0 then 0xA0 else 0x80) (if b = 0xED then 0x9F else 0xBF) c1
             then (case r1 of
                     [] \<Rightarrow> [0xFFFD]
                   | c2 # r2 \<Rightarrow>
                       if cont_in 0x80 0xBF c2
                       then ((b - 0xE0) * 4096 + (c1 - 0x80) * 64 + (c2 - 0x80)) # utf8_decode_nat r2
                       else 0xFFFD # utf8_decode_nat (c2 # r2))
             else 0xFFFD # utf8_decode_nat (c1 # r1))
      else if 0xF0 \<le> b \<and> b \<le> 0xF4 then
        (case bs of
           [] \<Rightarrow> [0xFFFD]
         | c1 # r1 \<Rightarrow>
             if cont_in (if b = 0xF0 then 0x90 else 0x80) (if b = 0xF4 then 0x8F else 0xBF) c1
             then (case r1 of
                     [] \<Rightarrow> [0xFFFD]
                   | c2 # r2 \<Rightarrow>
                       if cont_in 0x80 0xBF c2
                       then (case r2 of
                               [] \<Rightarrow> [0xFFFD]
                             | c3 # r3 \<Rightarrow>
                                 if cont_in 0x80 0xBF c3
                                 then utf16_units ((b - 0xF0) * 262144 + (c1 - 0x80) * 4096
                                                   + (c2 - 0x80) * 64 + (c3 - 0x80))
                                      @ utf8_decode_nat r3
                                 else 0xFFFD # utf8_decode_nat (c3 # r3))
                       else 0xFFFD # utf8_decode_nat (c2 # r2))
             else 0xFFFD # utf8_decode_nat (c1 # r1))
      else 0xFFFD # utf8_decode_nat bs)"

definition utf8_decode :: "byte list \<Rightarrow> jsstring" where
  "utf8_decode bs = utf8_decode_nat (map unat bs)"

text \<open>
  The UTF-8 encoding of a JavaScript string, as Node writes it: a surrogate pair gives
  four bytes, a lone surrogate the three bytes of U+FFFD.
\<close>

definition utf8_bytes :: "nat \<Rightarrow> byte list" where
  "utf8_bytes cp =
     (if cp < 0x80 then [of_nat cp]
      else if cp < 0x800 then [of_nat (0xC0 + cp div 64), of_nat (0x80 + cp mod 64)]
      else if cp < 0x10000 then
        [of_nat (0xE0 + cp div 4096), of_nat (0x80 + (cp div 64) mod 64), of_nat (0x80 + cp mod 64)]
      else
        [of_nat (0xF0 + cp div 262144), of_nat (0x80 + (cp div 4096) mod 64),
         of_nat (0x80 + (cp div 64) mod 64), of_nat (0x80 + cp mod 64)])"

fun utf8_encode :: "jsstring \<Rightarrow> byte list" where
  "utf8_encode [] = []"
| "utf8_encode (c # cs) =
     (if 0xD800 \<le> c \<and> c < 0xDC00 then
        (case cs of
           [] \<Rightarrow> utf8_bytes 0xFFFD
         | d # ds \<Rightarrow>
             if 0xDC00 \<le> d \<and> d < 0xE000
             then utf8_bytes (0x10000 + (c - 0xD800) * 0x400 + (d - 0xDC00)) @ utf8_encode ds
             else utf8_bytes 0xFFFD @ utf8_encode (d # ds))
      else if (0xDC00 \<le> c \<and> c < 0xE000) \<or> 0x10000 \<le> c then utf8_bytes 0xFFFD @ utf8_encode cs
      else utf8_bytes c @ utf8_encode cs)"

text \<open>\<^verbatim>\<open>buf.toString('ascii', ...)\<close>: Node clears the high bit of every byte.\<close>

definition ascii_decode :: "byte list \<Rightarrow> string" where
  "ascii_decode bs = map (\<lambda>b. char_of (unat b mod 128)) bs"

text \<open>The code units of a signature string.\<close>

definition units_of :: "string \<Rightarrow> jsstring" where
  "units_of s = map of_char s"

section \<open>The host: Node buffers\<close>

text \<open>
  A read outside the buffer raises a RangeError in Node. \<open>read_bytes\<close> is the common
  bounds check of the \<^verbatim>\<open>readUInt8\<close>, \<^verbatim>\<open>readUInt16LE\<close>, ... family.
\<close>

definition read_bytes :: "buffer \<Rightarrow> int \<Rightarrow> nat \<Rightarrow> error + byte list" where
  "read_bytes buf i n =
     (if 0 \<le> i \<and> i + int n \<le> int (length buf) then Inr (take n (drop (nat i) buf))
      else Inl RangeError_buffer)"

fun le_uint :: "byte list \<Rightarrow> int" where
  "le_uint [] = 0"
| "le_uint (b # bs) = uint b + 256 * le_uint bs"

definition readUInt8 :: "buffer \<Rightarrow> int \<Rightarrow> error + int" where
  "readUInt8 buf i = bind_e (read_bytes buf i 1) (\<lambda>bs. Inr (le_uint bs))"

definition readUInt16LE :: "buffer \<Rightarrow> int \<Rightarrow> error + int" where
  "readUInt16LE buf i = bind_e (read_bytes buf i 2) (\<lambda>bs. Inr (le_uint bs))"

definition readUInt32LE :: "buffer \<Rightarrow> int \<Rightarrow> error + int" where
  "readUInt32LE buf i = bind_e (read_bytes buf i 4) (\<lambda>bs. Inr (le_uint bs))"

definition to_signed :: "nat \<Rightarrow> int \<Rightarrow> int" where
  "to_signed bits u = (if 2 ^ (bits - 1) \<le> u then u - 2 ^ bits else u)"

definition readInt16LE :: "buffer \<Rightarrow> int \<Rightarrow> error + int" where
  "readInt16LE buf i = bind_e (read_bytes buf i 2) (\<lambda>bs. Inr (to_signed 16 (le_uint bs)))"

definition readInt32LE :: "buffer \<Rightarrow> int \<Rightarrow> error + int" where
  "readInt32LE buf i = bind_e (read_bytes buf i 4) (\<lambda>bs. Inr (to_signed 32 (le_uint bs)))"

definition readDoubleLE :: "buffer \<Rightarrow> int \<Rightarrow> error + 64 word" where
  "readDoubleLE buf i = bind_e (read_bytes buf i 8) (\<lambda>bs. Inr (word_of_int (le_uint bs)))"

text \<open>
  \<^verbatim>\<open>buf.toString(encoding, start, end)\<close>, as \<^verbatim>\<open>lib/buffer.js\<close> of Node has it:

  \<^verbatim>\<open>if (start <= 0) start = 0; else if (start >= len) return ''; else start |= 0;\<close>
  \<^verbatim>\<open>if (end === undefined || end > len) end = len; else end |= 0;\<close>
  \<^verbatim>\<open>if (end <= start) return '';\<close>

  and then the native slice, which raises a RangeError for a range that is not inside
  the buffer and \<^verbatim>\<open>ERR_STRING_TOO_LONG\<close> for a range of more bytes than the longest
  string has code units. \<open>toString_range\<close> is the byte range that is decoded.
\<close>

definition toString_range :: "buffer \<Rightarrow> int \<Rightarrow> int \<Rightarrow> error + byte list" where
  "toString_range buf start end =
     (let len = int (length buf) in
      if 0 < start \<and> len \<le> start then Inr []
      else
        let s = (if start \<le> 0 then 0 else to_int32 start);
            e = (if len < end then len else to_int32 end)
        in if e \<le> s then Inr []
           else if s < 0 \<or> len < e then Inl RangeError_buffer
           else if MAX_STRING_LENGTH < e - s then Inl Error_string_too_long
           else Inr (take (nat (e - s)) (drop (nat s) buf)))"

definition toString_utf8 :: "buffer \<Rightarrow> int \<Rightarrow> int \<Rightarrow> error + jsstring" where
  "toString_utf8 buf start end =
     bind_e (toString_range buf start end) (\<lambda>bs. Inr (utf8_decode bs))"

definition toString_ascii :: "buffer \<Rightarrow> int \<Rightarrow> int \<Rightarrow> error + string" where
  "toString_ascii buf start end =
     bind_e (toString_range buf start end) (\<lambda>bs. Inr (ascii_decode bs))"

text \<open>
  \<^verbatim>\<open>buf.slice(start, end)\<close>: a negative index counts from the end of the buffer, both
  are clamped to it, and an end before the start gives the empty buffer.
\<close>

definition slice_index :: "buffer \<Rightarrow> int \<Rightarrow> int" where
  "slice_index buf i =
     (if i < 0 then max (int (length buf) + i) 0 else min i (int (length buf)))"

definition buf_slice :: "buffer \<Rightarrow> int \<Rightarrow> int \<Rightarrow> buffer" where
  "buf_slice buf start end =
     (let s = slice_index buf start; e = slice_index buf end
      in take (nat (e - s)) (drop (nat s) buf))"

section \<open>The host: 64-bit integers (long.js)\<close>

text \<open>
  \<^verbatim>\<open>Long.fromBits(lo, hi, unsigned).toNumber()\<close> is
  \<^verbatim>\<open>high * 2^32 + (low >>> 0)\<close> in double arithmetic: the exact integer, rounded once to
  the nearest double (ties to even). \<open>round_double\<close> is that rounding on integers;
  \<open>excess_bits a\<close> is the number of bits of \<open>a\<close> beyond the 53 a double keeps.
\<close>

function excess_bits :: "int \<Rightarrow> nat" where
  "excess_bits a = (if a < 2 ^ 53 then 0 else Suc (excess_bits (a div 2)))"
  by pat_completeness auto
termination
  by (relation "measure nat") auto

declare excess_bits.simps [simp del]

definition round_double :: "int \<Rightarrow> int" where
  "round_double n =
     (let a = \<bar>n\<bar> in
      if a < 2 ^ 53 then n
      else
        let e = excess_bits a;
            q = a div 2 ^ e;
            r = a mod 2 ^ e;
            h = 2 ^ (e - 1);
            q' = (if h < r \<or> (r = h \<and> odd q) then q + 1 else q)
        in sgn n * (q' * 2 ^ e))"

definition Long_toNumber :: "int \<Rightarrow> int \<Rightarrow> bool \<Rightarrow> int" where
  "Long_toNumber lo hi is_unsigned =
     round_double ((if is_unsigned then hi mod 2 ^ 32 else to_signed 32 (hi mod 2 ^ 32)) * 2 ^ 32
                   + lo mod 2 ^ 32)"

text \<open>
  \<^verbatim>\<open>Long.fromNumber(value)\<close> (signed) saturates at the ends of the 64-bit range and is
  the two's complement of the number otherwise; the result is the pair of
  \<^verbatim>\<open>getLowBitsUnsigned()\<close> and \<^verbatim>\<open>getHighBitsUnsigned()\<close>.
\<close>

definition Long_fromNumber :: "int \<Rightarrow> int \<times> int" where
  "Long_fromNumber v =
     (if v \<le> - (2 ^ 63) then (0, 0x80000000)
      else if 2 ^ 63 \<le> v + 1 then (0xFFFFFFFF, 0x7FFFFFFF)
      else (v mod 2 ^ 32, (v div 2 ^ 32) mod 2 ^ 32))"

section \<open>The dynamic buffer\<close>

text \<open>
  Modelled from the spec: \<^verbatim>\<open>dynamic-buffer.js\<close> is not among the sources. The spec gives
  its operations: \<^verbatim>\<open>append(text)\<close> appends the UTF-8 bytes of a text; the
  \<^verbatim>\<open>appendUInt8/16/32\<close>, \<^verbatim>\<open>appendInt16/32\<close> and \<^verbatim>\<open>appendDouble\<close> writers are
  little-endian; \<^verbatim>\<open>align(n)\<close> pads with zero bytes until the length is a multiple of
  \<open>n\<close>; \<^verbatim>\<open>length\<close> is the byte count and \<^verbatim>\<open>toBuffer()\<close> the bytes written. The spec
  does not say what a writer does with a number outside its range: the model answers
  \<open>NotInDomain\<close> there.
\<close>

type_synonym dynbuf = "byte list"

fun le_bytes :: "nat \<Rightarrow> int \<Rightarrow> byte list" where
  "le_bytes 0 v = []"
| "le_bytes (Suc n) v = word_of_int v # le_bytes n (v div 256)"

definition append_uint :: "nat \<Rightarrow> int \<Rightarrow> dynbuf \<Rightarrow> error + dynbuf" where
  "append_uint n v buf =
     (if 0 \<le> v \<and> v < 2 ^ (8 * n) then Inr (buf @ le_bytes n v) else Inl NotInDomain)"

definition append_int :: "nat \<Rightarrow> int \<Rightarrow> dynbuf \<Rightarrow> error + dynbuf" where
  "append_int n v buf =
     (if - (2 ^ (8 * n - 1)) \<le> v \<and> v < 2 ^ (8 * n - 1) then Inr (buf @ le_bytes n v)
      else Inl NotInDomain)"

definition appendUInt8 :: "int \<Rightarrow> dynbuf \<Rightarrow> error + dynbuf" where
  "appendUInt8 v buf = append_uint 1 v buf"

definition appendUInt16 :: "int \<Rightarrow> dynbuf \<Rightarrow> error + dynbuf" where
  "appendUInt16 v buf = append_uint 2 v buf"

definition appendUInt32 :: "int \<Rightarrow> dynbuf \<Rightarrow> error + dynbuf" where
  "appendUInt32 v buf = append_uint 4 v buf"

definition appendInt16 :: "int \<Rightarrow> dynbuf \<Rightarrow> error + dynbuf" where
  "appendInt16 v buf = append_int 2 v buf"

definition appendInt32 :: "int \<Rightarrow> dynbuf \<Rightarrow> error + dynbuf" where
  "appendInt32 v buf = append_int 4 v buf"

definition appendDouble :: "64 word \<Rightarrow> dynbuf \<Rightarrow> dynbuf" where
  "appendDouble w buf = buf @ le_bytes 8 (uint w)"

definition append_text :: "jsstring \<Rightarrow> dynbuf \<Rightarrow> dynbuf" where
  "append_text text buf = buf @ utf8_encode text"

definition buf_align :: "int \<Rightarrow> dynbuf \<Rightarrow> dynbuf" where
  "buf_align n buf = buf @ replicate (nat ((n - int (length buf) mod n) mod n)) 0"

definition buf_length :: "dynbuf \<Rightarrow> int" where
  "buf_length buf = int (length buf)"

definition toBuffer :: "dynbuf \<Rightarrow> buffer" where
  "toBuffer buf = buf"

section \<open>Alignment and the offset codec\<close>

definition align :: "int \<Rightarrow> int \<Rightarrow> int" where
  "align n sz = n + js_rem (sz - js_rem n sz) sz"

text \<open>
  \<open>offsetInfo\<close> returns the cell width and a closure reading a cell. The closure of the
  source takes a cell index \<open>i\<close> and reads at \<^verbatim>\<open>end + size * i\<close>; the array reader calls
  it with the index \<^verbatim>\<open>-n + i\<close>, where \<^verbatim>\<open>n = (end - offsets.read(-1)) / size\<close> need not be
  whole while \<^verbatim>\<open>size * (-n + i)\<close> always is. The closure of the model therefore takes the
  byte displacement \<open>d = size * i\<close> and reads at \<open>end + d\<close>.
\<close>

record offsets =
  off_size :: int
  off_read :: "int \<Rightarrow> error + int"

definition offsetInfo :: "buffer \<Rightarrow> int \<Rightarrow> int \<Rightarrow> error + offsets" where
  "offsetInfo buf start end =
     (if end - start \<le> 0xff then
        Inr \<lparr>off_size = 1,
             off_read = (\<lambda>d. bind_e (readUInt8 buf (end + d)) (\<lambda>v. Inr (start + v)))\<rparr>
      else if end - start \<le> 0xffff then
        Inr \<lparr>off_size = 2,
             off_read = (\<lambda>d. bind_e (readUInt16LE buf (end + d)) (\<lambda>v. Inr (start + v)))\<rparr>
      else if end - start \<le> 0xffffffff then
        Inr \<lparr>off_size = 4,
             off_read = (\<lambda>d. bind_e (readUInt32LE buf (end + d)) (\<lambda>v. Inr (start + v)))\<rparr>
      else Inl RangeError_offset)"

text \<open>\<^verbatim>\<open>offsets.forEach(function (o) { buf.appendUIntN(o); })\<close>\<close>

fun forEach_append :: "(int \<Rightarrow> dynbuf \<Rightarrow> error + dynbuf) \<Rightarrow> int list \<Rightarrow> dynbuf \<Rightarrow> error + dynbuf" where
  "forEach_append f [] buf = Inr buf"
| "forEach_append f (o1 # os) buf = bind_e (f o1 buf) (forEach_append f os)"

definition writeOffsets :: "dynbuf \<Rightarrow> int list \<Rightarrow> int \<Rightarrow> int \<Rightarrow> error + dynbuf" where
  "writeOffsets buf offs start end =
     (if end - start \<le> 0xff then forEach_append appendUInt8 offs buf
      else if end - start \<le> 0xffff then forEach_append appendUInt16 offs buf
      else if end - start \<le> 0xffffffff then forEach_append appendUInt32 offs buf
      else Inl RangeError_offset)"

section \<open>Type descriptors and the signature parser\<close>

lemma bind_e_cong [fundef_cong]:
  "m = m' \<Longrightarrow> (\<And>x. m' = Inr x \<Longrightarrow> f x = f' x) \<Longrightarrow> bind_e m f = bind_e m' f'"
  by (cases m') (simp_all add: bind_e_def)

lemma bind_e_simps [simp]:
  "bind_e (Inl e) f = Inl e"
  "bind_e (Inr x) f = f x"
  by (simp_all add: bind_e_def)

text \<open>
  The object \<open>nextType\<close> returns: \<open>id_sig\<close> is its \<^verbatim>\<open>id\<close>, \<open>fixedSize\<close> is \<open>None\<close> where
  the property is absent or \<^verbatim>\<open>NaN\<close> (both are falsy, and arithmetic on either gives
  \<^verbatim>\<open>NaN\<close>), and \<open>kind\<close> says which \<^verbatim>\<open>case\<close> of the switch built it, with the child
  descriptors it stores (\<^verbatim>\<open>element\<close>, \<^verbatim>\<open>elements\<close>, \<^verbatim>\<open>key\<close> and \<^verbatim>\<open>value\<close>). The
  \<^verbatim>\<open>read\<close> and \<^verbatim>\<open>write\<close> closures of the object are the functions \<open>read\<close> and \<open>write\<close>
  below, which dispatch on \<open>kind\<close>.
\<close>

datatype desc =
  Desc (id_sig: string) (fixedSize: "int option") (alignment: int) (defaultValue: jsval) (kind: kind)
and kind =
    KByte | KInt16 | KUInt16 | KInt32 | KUInt32 | KInt64 | KUInt64 | KDouble | KBool
  | KText | KVariant
  | KMaybe desc
  | KTuple "desc list"
  | KDictEntry desc desc
  | KArray desc

text \<open>\<^verbatim>\<open>align(size, a) + fixedSize\<close> where a number may be \<^verbatim>\<open>NaN\<close> or \<^verbatim>\<open>undefined\<close>.\<close>

definition fs_align :: "int option \<Rightarrow> int \<Rightarrow> int option" where
  "fs_align sz a = map_option (\<lambda>n. align n a) sz"

definition fs_add :: "int option \<Rightarrow> int option \<Rightarrow> int option" where
  "fs_add a b = (case a of None \<Rightarrow> None | Some x \<Rightarrow> (case b of None \<Rightarrow> None | Some y \<Rightarrow> Some (x + y)))"

text \<open>Reading a property of the result of \<open>nextType\<close>: a TypeError on \<^verbatim>\<open>undefined\<close>.\<close>

definition defined :: "desc option \<Rightarrow> error + desc" where
  "defined r = (case r of None \<Rightarrow> Inl TypeError_undefined | Some d \<Rightarrow> Inr d)"

text \<open>
  The cases of the switch that return at once. The labels of the switch are distinct
  characters, so its cases can be tried in any order: \<open>nextType\<close> tries the four
  recursive ones first and leaves the others to \<open>leafType\<close>.
\<close>

definition leafType :: "char \<Rightarrow> desc option" where
  "leafType c =
     (if c = CHR ''y'' then Some (Desc ''y'' (Some 1) 1 (VNum 0) KByte)
      else if c = CHR ''n'' then Some (Desc ''n'' (Some 2) 2 (VNum 0) KInt16)
      else if c = CHR ''q'' then Some (Desc ''q'' (Some 2) 2 (VNum 0) KUInt16)
      else if c = CHR ''i'' then Some (Desc ''i'' (Some 4) 4 (VNum 0) KInt32)
      else if c = CHR ''u'' then Some (Desc ''u'' (Some 4) 4 (VNum 0) KUInt32)
      else if c = CHR ''x'' then Some (Desc ''x'' (Some 8) 8 (VNum 0) KInt64)
      else if c = CHR ''t'' then Some (Desc ''t'' (Some 8) 8 (VNum 0) KUInt64)
      else if c = CHR ''d'' then Some (Desc ''d'' (Some 8) 8 (VDouble 0) KDouble)
      else if c = CHR ''b'' then Some (Desc ''b'' (Some 1) 1 (VBool False) KBool)
      else if c = CHR ''s'' \<or> c = CHR ''o'' \<or> c = CHR ''g'' then Some (Desc [c] None 1 (VStr []) KText)
      else if c = CHR ''v'' then Some (Desc ''v'' None 8 (VVariant ''()'' (VArr [])) KVariant)
      else None)"

text \<open>
  \<open>nextType_tuple\<close> is the \<^verbatim>\<open>while (signature[end] !== ')')\<close> loop of the tuple case, with
  the loop variables \<^verbatim>\<open>end\<close>, \<^verbatim>\<open>elements\<close>, \<^verbatim>\<open>size\<close> and \<^verbatim>\<open>alignment\<close> as arguments.
  \<open>Inr None\<close> is the result \<^verbatim>\<open>undefined\<close>.
\<close>

function (domintros) nextType :: "string \<Rightarrow> nat \<Rightarrow> error + desc option"
and nextType_tuple :: "string \<Rightarrow> nat \<Rightarrow> nat \<Rightarrow> desc list \<Rightarrow> int option \<Rightarrow> int \<Rightarrow> error + desc option"
where
  "nextType signature index =
     (case char_at signature index of
        None \<Rightarrow> Inr None
      | Some c \<Rightarrow>
          if c = CHR ''m'' then
            bind_e (nextType signature (index + 1)) (\<lambda>r.
            bind_e (defined r) (\<lambda>maybeElement.
              Inr (Some (Desc (substr signature index (length (id_sig maybeElement) + 1)) None
                              (alignment maybeElement) VNull (KMaybe maybeElement)))))
          else if c = CHR ''('' then nextType_tuple signature index (index + 1) [] (Some 0) 1
          else if c = CHR ''{'' then
            bind_e (nextType signature (index + 1)) (\<lambda>r.
            bind_e (defined r) (\<lambda>key.
            bind_e (nextType signature (index + 1 + length (id_sig key))) (\<lambda>r'.
            bind_e (defined r') (\<lambda>value.
              Inr (Some (Desc (substr signature index (length (id_sig key) + length (id_sig value) + 2))
                              (fs_add (fs_align (fixedSize key) (alignment value)) (fixedSize value))
                              (max (alignment key) (alignment value))
                              (VArr [defaultValue key, defaultValue value])
                              (KDictEntry key value)))))))
          else if c = CHR ''a'' then
            bind_e (nextType signature (index + 1)) (\<lambda>r.
            bind_e (defined r) (\<lambda>element.
              Inr (Some (Desc (substr signature index (length (id_sig element) + 1)) None
                              (alignment element) (VArr []) (KArray element)))))
          else Inr (leafType c))"
| "nextType_tuple signature index end els sz al =
     (if char_at signature end \<noteq> Some CHR '')'' then
        bind_e (nextType signature end) (\<lambda>r.
        bind_e (defined r) (\<lambda>el.
          nextType_tuple signature index (end + length (id_sig el)) (els @ [el])
            (fs_add (fs_align sz (alignment el)) (fixedSize el)) (max al (alignment el))))
      else
        Inr (Some (Desc (slice_str signature index (end + 1))
                        (if sz = Some 0 then Some 1 else sz) al
                        (VArr (map defaultValue els)) (KTuple els))))"
  by pat_completeness auto

lemma leafType_id: "leafType c = Some d \<Longrightarrow> id_sig d = [c]"
  unfolding leafType_def by (simp split: if_split_asm; clarsimp)

lemma defined_Inr [simp]: "defined r = Inr d \<longleftrightarrow> r = Some d"
  by (cases r) (simp_all add: defined_def)

lemma bind_e_Inr: "bind_e m f = Inr y \<longleftrightarrow> (\<exists>x. m = Inr x \<and> f x = Inr y)"
  by (cases m) simp_all

lemma substr_nonempty: "i < length s \<Longrightarrow> substr s i (Suc n) \<noteq> []"
  by (simp add: substr_def)

lemma slice_str_nonempty: "i < length s \<Longrightarrow> i < e \<Longrightarrow> slice_str s i (Suc e) \<noteq> []"
  by (simp add: slice_str_def)

lemma char_at_Some: "char_at s i = Some c \<Longrightarrow> i < length s"
  by (simp add: char_at_def split: if_splits)

lemma nextType_progress:
  "nextType_nextType_tuple_dom (Inl (signature, index)) \<Longrightarrow>
     nextType signature index = Inr (Some d) \<Longrightarrow> index < length signature \<and> id_sig d \<noteq> []"
  "nextType_nextType_tuple_dom (Inr (signature, index, end, els, sz, al)) \<Longrightarrow>
     nextType_tuple signature index end els sz al = Inr (Some d) \<Longrightarrow>
     index < length signature \<Longrightarrow> index < end \<Longrightarrow> id_sig d \<noteq> []"
proof (induct arbitrary: d and d rule: nextType_nextType_tuple.pinduct)
  case (1 signature index)
  from 1(7) obtain c where c: "char_at signature index = Some c"
    by (cases "char_at signature index") (simp_all add: nextType.psimps [OF 1(1)])
  then have lt: "index < length signature" by (rule char_at_Some)
  have "id_sig d \<noteq> []"
    using 1(7) 1(3) [OF c] lt
    by (auto simp: nextType.psimps [OF 1(1)] c bind_e_Inr substr_nonempty
             dest: leafType_id split: if_splits)
  with lt show ?case by simp
next
  case (2 signature index e els sz al)
  show ?case
    using 2(4) 2(3) 2(5) 2(6)
    by (auto simp: nextType_tuple.psimps [OF 2(1)] bind_e_Inr slice_str_nonempty split: if_splits)
qed

lemma nextType_advances:
  assumes "nextType_nextType_tuple_dom (Inl (s, e))" and "nextType s e = Inr (Some d)"
  shows "length s - (e + length (id_sig d)) < length s - e"
proof -
  from nextType_progress(1) [OF assms] have "e < length s" and "0 < length (id_sig d)"
    by simp_all
  then show ?thesis by arith
qed

termination nextType
proof (relation "measure (\<lambda>x. case x of
          Inl (signature, index) \<Rightarrow> 2 * (length signature - index)
        | Inr (signature, index, end, els, sz, al) \<Rightarrow> 2 * (length signature - end) + 1)",
       goal_cases)
  case 1
  show ?case by simp
next
  case 2
  then show ?case by (simp add: char_at_def split: if_splits)
next
  case 3
  then show ?case by (simp add: char_at_def split: if_splits)
next
  case 4
  then show ?case by (simp add: char_at_def split: if_splits)
next
  case 5
  then show ?case by (simp add: char_at_def split: if_splits)
next
  case 6
  then show ?case by (simp add: char_at_def split: if_splits)
next
  case 7
  then show ?case by simp
next
  case 8
  then show ?case by (simp add: nextType_advances)
qed


text \<open>
  \<^verbatim>\<open>throw new TypeError('invalid type string: ' + str)\<close>: the message has 21 characters
  before \<^verbatim>\<open>str\<close>, and the concatenation itself raises when the result would be longer
  than the longest string.
\<close>

definition invalid_type_string :: "string \<Rightarrow> error" where
  "invalid_type_string str =
     (if MAX_STRING_LENGTH < 21 + int (length str) then RangeError_string_length
      else TypeError_invalid_type_string)"

definition parseType :: "string \<Rightarrow> error + desc" where
  "parseType str =
     bind_e (nextType str 0) (\<lambda>r.
       case r of
         None \<Rightarrow> Inl (invalid_type_string str)
       | Some type \<Rightarrow>
           if length (id_sig type) \<noteq> length str then Inl (invalid_type_string str)
           else Inr type)"

text \<open>
  What \<open>nextType\<close> guarantees of a descriptor and of the descriptors inside it: the
  alignment is positive, a fixed size is positive, and the \<^verbatim>\<open>id\<close> of a dict-entry
  starts with a brace.
\<close>

fun desc_inv :: "desc \<Rightarrow> bool"
and kind_inv :: "string \<Rightarrow> kind \<Rightarrow> bool" where
  "desc_inv (Desc i fs al dv k) =
     (0 < al \<and> (case fs of None \<Rightarrow> True | Some n \<Rightarrow> 0 < n) \<and> kind_inv i k)"
| "kind_inv i (KMaybe e) = desc_inv e"
| "kind_inv i (KTuple es) = list_all desc_inv es"
| "kind_inv i (KDictEntry a b) = (desc_inv a \<and> desc_inv b \<and> char_at i 0 = Some CHR ''{'')"
| "kind_inv i (KArray e) = desc_inv e"
| "kind_inv i k = True"

text \<open>
  The well-formed signatures, as the specification defines them: one complete type
  over the alphabet, \<open>m\<close> and \<open>a\<close> prefixing one type, a tuple bracketing any number of
  types and a dict-entry bracing exactly two.
\<close>

inductive wf_sig :: "string \<Rightarrow> bool" where
  leaf: "c \<in> set ''ynqiuxtdbsogv'' \<Longrightarrow> wf_sig [c]"
| maybe: "wf_sig t \<Longrightarrow> wf_sig (CHR ''m'' # t)"
| array: "wf_sig t \<Longrightarrow> wf_sig (CHR ''a'' # t)"
| tuple: "(\<And>t. t \<in> set ts \<Longrightarrow> wf_sig t) \<Longrightarrow> wf_sig (CHR ''('' # concat ts @ '')'')"
| entry: "wf_sig k \<Longrightarrow> wf_sig v \<Longrightarrow> wf_sig (CHR ''{'' # k @ v @ ''}'')"

section \<open>The reader\<close>

text \<open>Truthiness of \<^verbatim>\<open>fixedSize\<close>: \<^verbatim>\<open>undefined\<close>, \<^verbatim>\<open>NaN\<close> and \<open>0\<close> are falsy.\<close>

definition truthy :: "int option \<Rightarrow> bool" where
  "truthy fs = (case fs of None \<Rightarrow> False | Some n \<Rightarrow> n \<noteq> 0)"

text \<open>
  The backward scan of the variant reader:
  \<^verbatim>\<open>while (sep >= start) { if (buf.readUInt8(sep) === 0) break; sep -= 1; }\<close>
\<close>

function variant_scan :: "buffer \<Rightarrow> int \<Rightarrow> int \<Rightarrow> error + int" where
  "variant_scan buf start sep =
     (if sep \<ge> start then
        bind_e (readUInt8 buf sep) (\<lambda>b. if b = 0 then Inr sep else variant_scan buf start (sep - 1))
      else Inr sep)"
  by pat_completeness auto
termination
  by (relation "measure (\<lambda>(buf, start, sep). nat (sep - start + 1))") auto

declare variant_scan.simps [simp del]

text \<open>
  \<^verbatim>\<open>String(v)\<close>, which names the property in \<^verbatim>\<open>o[v[0]] = v[1]\<close>. An array is joined with
  commas, \<^verbatim>\<open>null\<close> elements as empty strings, and the join raises when the result would
  be longer than the longest string; an object is \<^verbatim>\<open>[object Object]\<close>. An integer up to
  \<open>2^53\<close> in magnitude is rendered by its decimal digits; beyond, where JavaScript
  prints the shortest digits that identify the double, and for a double, the
  rendering is left open.
\<close>

fun to_property_key :: "jsval \<Rightarrow> error + jsstring"
and join_keys :: "jsval list \<Rightarrow> error + jsstring" where
  "to_property_key (VNum n) =
     (if \<bar>n\<bar> \<le> 2 ^ 53 then Inr (int_to_string n) else Inl NotModelled)"
| "to_property_key (VDouble w) = Inl NotModelled"
| "to_property_key (VBool b) = Inr (units_of (if b then ''true'' else ''false''))"
| "to_property_key (VStr s) = Inr s"
| "to_property_key VNull = Inr (units_of ''null'')"
| "to_property_key (VArr vs) = join_keys vs"
| "to_property_key (VObj kvs) = Inr (units_of ''[object Object]'')"
| "to_property_key (VVariant t v) = Inr (units_of ''[object Object]'')"
| "join_keys [] = Inr []"
| "join_keys (v # vs) =
     bind_e (if v = VNull then Inr [] else to_property_key v) (\<lambda>a.
       if vs = [] then Inr a
       else bind_e (join_keys vs) (\<lambda>b.
              if MAX_STRING_LENGTH < int (length (a @ 44 # b)) then Inl RangeError_string_length
              else Inr (a @ 44 # b)))"

text \<open>
  An array index is the canonical decimal string of a number below \<open>2^32 - 1\<close>. The
  properties of an object enumerate with the array indices first, ascending, and the
  other keys after them in the order they were created.
\<close>

definition index_value :: "jsstring \<Rightarrow> int" where
  "index_value k = foldl (\<lambda>a c. 10 * a + (int c - 48)) 0 k"

definition is_array_index :: "jsstring \<Rightarrow> bool" where
  "is_array_index k =
     (k \<noteq> [] \<and> list_all (\<lambda>c. 48 \<le> c \<and> c \<le> 57) k \<and> (length k = 1 \<or> hd k \<noteq> 48)
      \<and> index_value k < 4294967295)"

definition index_before :: "jsstring \<Rightarrow> jsstring \<times> jsval \<Rightarrow> bool" where
  "index_before k e = (is_array_index (fst e) \<and> index_value (fst e) < index_value k)"

text \<open>
  \<^verbatim>\<open>o[k] = v\<close> on an object that began as \<^verbatim>\<open>{}\<close>. Under the key \<^verbatim>\<open>__proto__\<close> the
  assignment runs the setter of \<^verbatim>\<open>Object.prototype\<close> and creates no property: a
  primitive \<open>v\<close> leaves the object as it is, an object or \<^verbatim>\<open>null\<close> replaces its
  prototype, which a \<open>jsval\<close> does not hold.
\<close>

definition is_primitive :: "jsval \<Rightarrow> bool" where
  "is_primitive v = (case v of VNum n \<Rightarrow> True | VDouble w \<Rightarrow> True | VBool b \<Rightarrow> True
                     | VStr s \<Rightarrow> True | _ \<Rightarrow> False)"

definition obj_set ::
  "(jsstring \<times> jsval) list \<Rightarrow> jsstring \<Rightarrow> jsval \<Rightarrow> error + (jsstring \<times> jsval) list" where
  "obj_set obj k v =
     (if k = units_of ''__proto__'' then (if is_primitive v then Inr obj else Inl NotModelled)
      else if k \<in> fst ` set obj then Inr (map (\<lambda>e. if fst e = k then (k, v) else e) obj)
      else if is_array_index k then
        Inr (takeWhile (index_before k) obj @ (k, v) # dropWhile (index_before k) obj)
      else Inr (obj @ [(k, v)]))"

text \<open>
  \<^verbatim>\<open>values.reduce(function (o, v) { o[v[0]] = v[1]; return o; }, {})\<close>. The values are
  what the dict-entry reader returned: sequences of two elements.
\<close>

fun reduce_entries :: "(jsstring \<times> jsval) list \<Rightarrow> jsval list \<Rightarrow> error + (jsstring \<times> jsval) list" where
  "reduce_entries obj [] = Inr obj"
| "reduce_entries obj (VArr [k, x] # vs) =
     bind_e (to_property_key k) (\<lambda>key.
     bind_e (obj_set obj key x) (\<lambda>obj'. reduce_entries obj' vs))"
| "reduce_entries obj (v # vs) = Inl NotModelled"

text \<open>The end of the array reader: \<^verbatim>\<open>if (this.element.id[0] === '{') values = values.reduce(...)\<close>\<close>

definition array_result :: "desc \<Rightarrow> jsval list \<Rightarrow> error + jsval" where
  "array_result element values =
     (if char_at (id_sig element) 0 = Some CHR ''{''
      then bind_e (reduce_entries [] values) (\<lambda>obj. Inr (VObj obj))
      else Inr (VArr values))"

lemma size_kind_less:
  "kind d = KMaybe x \<Longrightarrow> size x < size d"
  "kind d = KArray x \<Longrightarrow> size x < size d"
  "kind d = KArray x \<Longrightarrow> Suc (size x) < size d"
  "kind d = KDictEntry k v \<Longrightarrow> size k < size d"
  "kind d = KDictEntry k v \<Longrightarrow> size v < size d"
  "kind d = KTuple els \<Longrightarrow> size_list size els < size d"
  by (cases d; simp)+

lemma parseType_nonempty: "parseType s = Inr t \<Longrightarrow> s \<noteq> []"
  by (auto simp: parseType_def char_at_def)

lemma toString_range_nonempty:
  "toString_range buf s e = Inr bs \<Longrightarrow> bs \<noteq> [] \<Longrightarrow> s < int (length buf) \<and> 0 < int (length buf)"
  by (auto simp: toString_range_def Let_def split: if_splits)

lemma buf_slice_shorter:
  assumes "int (length buf) > 0" and "sep + 1 < int (length buf)"
  shows "length (buf_slice buf start sep) < length buf"
proof -
  have e: "slice_index buf sep < int (length buf)"
    using assms by (auto simp: slice_index_def)
  have s: "0 \<le> slice_index buf start"
    by (auto simp: slice_index_def)
  from e s assms(1) have "nat (slice_index buf sep - slice_index buf start) < length buf"
    by linarith
  then show ?thesis
    by (simp add: buf_slice_def Let_def)
qed

lemma variant_data_shorter:
  assumes "toString_ascii buf (sep + 1) end = Inr type" and "parseType type = Inr t"
  shows "length (buf_slice buf start sep) < length buf"
proof -
  from assms(2) have "type \<noteq> []"
    by (rule parseType_nonempty)
  with assms(1) obtain bs where "toString_range buf (sep + 1) end = Inr bs" and "bs \<noteq> []"
    by (cases "toString_range buf (sep + 1) end") (auto simp: toString_ascii_def ascii_decode_def)
  from toString_range_nonempty [OF this]
  have "sep + 1 < int (length buf)" and "0 < int (length buf)" by auto
  then show ?thesis by (intro buf_slice_shorter) auto
qed

text \<open>
  The \<^verbatim>\<open>read\<close> closures, by the case of \<open>nextType\<close> that built the descriptor, and the
  loops inside them. \<open>read_tuple\<close> is the \<^verbatim>\<open>for\<close> loop of the tuple reader over the
  elements that remain (\<^verbatim>\<open>i < this.elements.length - 1\<close> holds when more remain after
  the current one); \<open>read_array_fixed\<close> and \<open>read_array_var\<close> are the two \<^verbatim>\<open>for\<close> loops
  of the array reader. In \<open>read_array_var\<close>, \<open>m\<close> is \<^verbatim>\<open>end - offsets.read(-1)\<close>, so that
  \<^verbatim>\<open>n = m / offsets.size\<close>; \<open>i < n\<close> is \<open>i < nc\<close> for the ceiling \<open>nc\<close> of \<open>n\<close>, and
  \<^verbatim>\<open>offsets.read(-n + i)\<close> reads at the displacement \<open>size * i - m\<close>.
\<close>

function read :: "desc \<Rightarrow> buffer \<Rightarrow> int \<Rightarrow> int \<Rightarrow> error + jsval"
and read_tuple :: "desc list \<Rightarrow> buffer \<Rightarrow> int \<Rightarrow> offsets \<Rightarrow> int \<Rightarrow> int \<Rightarrow> error + jsval list"
and read_array_fixed :: "desc \<Rightarrow> buffer \<Rightarrow> int \<Rightarrow> int \<Rightarrow> int \<Rightarrow> int \<Rightarrow> error + jsval list"
and read_array_var :: "desc \<Rightarrow> buffer \<Rightarrow> offsets \<Rightarrow> int \<Rightarrow> int \<Rightarrow> int \<Rightarrow> int \<Rightarrow> error + jsval list"
and parse :: "string \<Rightarrow> buffer \<Rightarrow> error + jsval"
where
  "read d buf start end =
     (case kind d of
        KByte \<Rightarrow>
          if end - start \<noteq> 1 then Inr (defaultValue d)
          else bind_e (readUInt8 buf start) (\<lambda>v. Inr (VNum v))
      | KInt16 \<Rightarrow>
          if end - start \<noteq> 2 then Inr (defaultValue d)
          else bind_e (readInt16LE buf start) (\<lambda>v. Inr (VNum v))
      | KUInt16 \<Rightarrow>
          if end - start \<noteq> 2 then Inr (defaultValue d)
          else bind_e (readUInt16LE buf start) (\<lambda>v. Inr (VNum v))
      | KInt32 \<Rightarrow>
          if end - start \<noteq> 4 then Inr (defaultValue d)
          else bind_e (readInt32LE buf start) (\<lambda>v. Inr (VNum v))
      | KUInt32 \<Rightarrow>
          if end - start \<noteq> 4 then Inr (defaultValue d)
          else bind_e (readUInt32LE buf start) (\<lambda>v. Inr (VNum v))
      | KInt64 \<Rightarrow>
          if end - start \<noteq> 8 then Inr (defaultValue d)
          else bind_e (readUInt32LE buf start) (\<lambda>lo.
               bind_e (readUInt32LE buf (start + 4)) (\<lambda>hi.
                 Inr (VNum (Long_toNumber lo hi False))))
      | KUInt64 \<Rightarrow>
          if end - start \<noteq> 8 then Inr (defaultValue d)
          else bind_e (readUInt32LE buf start) (\<lambda>lo.
               bind_e (readUInt32LE buf (start + 4)) (\<lambda>hi.
                 Inr (VNum (Long_toNumber lo hi True))))
      | KDouble \<Rightarrow>
          if end - start \<noteq> 8 then Inr (defaultValue d)
          else bind_e (readDoubleLE buf start) (\<lambda>v. Inr (VDouble v))
      | KBool \<Rightarrow>
          if end - start \<noteq> 1 then Inr (defaultValue d)
          else bind_e (readUInt8 buf start) (\<lambda>v. Inr (VBool (v \<noteq> 0)))
      | KText \<Rightarrow>
          if start = end then Inr (defaultValue d)
          else bind_e (readUInt8 buf (end - 1)) (\<lambda>last.
                 if last \<noteq> 0 then Inr (defaultValue d)
                 else
                   bind_e (toString_utf8 buf start (end - 1)) (\<lambda>str.
                     let nul = indexOf str 0
                     in if nul \<ge> 0 then Inr (VStr (substring0 str nul)) else Inr (VStr str)))
      | KVariant \<Rightarrow>
          bind_e (variant_scan buf start (end - 1)) (\<lambda>sep.
          bind_e (toString_ascii buf (sep + 1) end) (\<lambda>type.
            let data = buf_slice buf start sep
            in bind_e (parse type data) (\<lambda>v. Inr (VVariant type v))))
      | KMaybe element \<Rightarrow>
          if start = end then Inr VNull
          else if truthy (fixedSize element) then
            (if end - start \<noteq> the (fixedSize element) then Inr VNull
             else read element buf start end)
          else read element buf start (end - 1)
      | KTuple elements \<Rightarrow>
          if truthy (fixedSize d) \<and> end - start \<noteq> the (fixedSize d) then Inr (defaultValue d)
          else bind_e (offsetInfo buf start end) (\<lambda>offsets.
               bind_e (read_tuple elements buf end offsets start 0) (\<lambda>values.
                 Inr (VArr values)))
      | KDictEntry key value \<Rightarrow>
          if truthy (fixedSize d) \<and> end - start \<noteq> the (fixedSize d) then Inr (defaultValue d)
          else bind_e (offsetInfo buf start end) (\<lambda>offsets.
               bind_e (if truthy (fixedSize key) then Inr (start + the (fixedSize key), end)
                       else bind_e (off_read offsets (off_size offsets * (- 1))) (\<lambda>keyEnd.
                              Inr (keyEnd, end - off_size offsets))) (\<lambda>(keyEnd, valueEnd).
               bind_e (read key buf start keyEnd) (\<lambda>k.
               bind_e (read value buf (align keyEnd (alignment value)) valueEnd) (\<lambda>v.
                 Inr (VArr [k, v])))))
      | KArray element \<Rightarrow>
          if start = end then
            Inr (if char_at (id_sig element) 0 = Some CHR ''{'' then VObj [] else VArr [])
          else if truthy (fixedSize element) then
            (if js_rem (end - start) (the (fixedSize element)) \<noteq> 0 then Inr (VArr [])
             else bind_e (read_array_fixed element buf (the (fixedSize element))
                            ((end - start) div the (fixedSize element)) 0 start)
                         (array_result element))
          else bind_e (offsetInfo buf start end) (\<lambda>offsets.
               bind_e (off_read offsets (off_size offsets * (- 1))) (\<lambda>first.
               bind_e (read_array_var element buf offsets (end - first)
                         (- ((first - end) div off_size offsets)) 0 start)
                      (array_result element))))"
| "read_tuple [] buf end offsets cur curOffset = Inr []"
| "read_tuple (el # rest) buf end offsets cur curOffset =
     (let cur' = align cur (alignment el) in
      bind_e (if truthy (fixedSize el) then Inr (cur' + the (fixedSize el), curOffset)
              else if rest \<noteq> [] then
                bind_e (off_read offsets (off_size offsets * (curOffset - 1))) (\<lambda>next.
                  Inr (next, curOffset - 1))
              else Inr (end - off_size offsets * (- curOffset), curOffset)) (\<lambda>(next, curOffset').
      bind_e (read el buf cur' next) (\<lambda>v.
      bind_e (read_tuple rest buf end offsets next curOffset') (\<lambda>vs.
        Inr (v # vs)))))"
| "read_array_fixed element buf fs n i cur =
     (if i < n then
        bind_e (read element buf cur (cur + fs)) (\<lambda>v.
        bind_e (read_array_fixed element buf fs n (i + 1) (cur + fs)) (\<lambda>vs.
          Inr (v # vs)))
      else Inr [])"
| "read_array_var element buf offsets m nc i cur =
     (if i < nc then
        bind_e (off_read offsets (off_size offsets * i - m)) (\<lambda>next.
        bind_e (read element buf cur next) (\<lambda>v.
        bind_e (read_array_var element buf offsets m nc (i + 1) (align next (alignment element))) (\<lambda>vs.
          Inr (v # vs))))
      else Inr [])"
| "parse typestr data =
     bind_e (parseType typestr) (\<lambda>type. read type data 0 (int (length data)))"
  by pat_completeness auto


lemma variant_measure:
  assumes "toString_ascii buf (sep + 1) end = Inr type"
  shows "(case parseType type of Inl e \<Rightarrow> 0
          | Inr t \<Rightarrow> 2 * length (buf_slice buf start sep) + 2) < Suc (2 * length buf)"
proof (cases "parseType type")
  case (Inl e)
  then show ?thesis by simp
next
  case (Inr t)
  from variant_data_shorter [OF assms this, of start] Inr show ?thesis by simp
qed

termination read
proof (relation "inv_image (less_than <*lex*> less_than <*lex*> less_than) (\<lambda>x. case x of
     Inl (Inl (d, buf, start, end)) \<Rightarrow> (2 * length buf + 1, size d, 0)
   | Inl (Inr (els, buf, end, offsets, cur, curOffset)) \<Rightarrow> (2 * length buf + 1, size_list size els, 0)
   | Inr (Inl (element, buf, fs, n, i, cur)) \<Rightarrow> (2 * length buf + 1, Suc (size element), nat (n - i))
   | Inr (Inr (Inl (element, buf, offsets, m, nc, i, cur))) \<Rightarrow>
       (2 * length buf + 1, Suc (size element), nat (nc - i))
   | Inr (Inr (Inr (typestr, data))) \<Rightarrow>
       (case parseType typestr of Inl e \<Rightarrow> 0 | Inr t \<Rightarrow> 2 * length data + 2, 0, 0))",
   goal_cases)
  case 1
  show ?case by (intro wf_inv_image wf_lex_prod wf_less_than)
next
  case 2
  then show ?case by (simp add: variant_measure)
next
  case 3
  then show ?case by (simp add: size_kind_less)
next
  case 4
  then show ?case by (simp add: size_kind_less)
next
  case 5
  then show ?case by (simp add: size_kind_less)
next
  case 6
  then show ?case by (simp add: size_kind_less)
next
  case 7
  then show ?case by (simp add: size_kind_less)
next
  case 8
  then show ?case by (simp add: size_kind_less)
next
  case 9
  then show ?case by (simp add: size_kind_less)
next
  case 10
  then show ?case by simp
next
  case 11
  then show ?case by simp
next
  case 12
  then show ?case by simp
next
  case 13
  then show ?case by simp
next
  case 14
  then show ?case by simp
next
  case 15
  then show ?case by simp
next
  case 16
  then show ?case by simp
qed

section \<open>The writer\<close>

text \<open>
  \<^verbatim>\<open>!!value\<close>: zero, \<^verbatim>\<open>NaN\<close>, the empty string, \<^verbatim>\<open>false\<close> and \<^verbatim>\<open>null\<close> are falsy. A
  double is zero when all its bits but the sign are, and \<^verbatim>\<open>NaN\<close> when they exceed the
  pattern of infinity.
\<close>

definition js_truthy :: "jsval \<Rightarrow> bool" where
  "js_truthy v =
     (case v of
        VNum n \<Rightarrow> n \<noteq> 0
      | VDouble w \<Rightarrow> (let m = uint w mod 2 ^ 63 in m \<noteq> 0 \<and> m \<le> 0x7FF0000000000000)
      | VBool b \<Rightarrow> b
      | VStr s \<Rightarrow> s \<noteq> []
      | VNull \<Rightarrow> False
      | _ \<Rightarrow> True)"

text \<open>
  \<^verbatim>\<open>value[i]\<close> on a sequence. Outside it the result is \<^verbatim>\<open>undefined\<close>, which no type has
  in its domain.
\<close>

definition js_index :: "jsval list \<Rightarrow> nat \<Rightarrow> error + jsval" where
  "js_index vs i = (if i < length vs then Inr (vs ! i) else Inl NotInDomain)"

text \<open>
  The array writer takes a sequence, or an object that it turns into the sequence of
  its \<^verbatim>\<open>[key, value]\<close> pairs in enumeration order.
\<close>

definition array_values :: "jsval \<Rightarrow> error + jsval list" where
  "array_values v =
     (case v of
        VArr vs \<Rightarrow> Inr vs
      | VObj kvs \<Rightarrow> Inr (map (\<lambda>e. VArr [VStr (fst e), snd e]) kvs)
      | _ \<Rightarrow> Inl NotInDomain)"

text \<open>The measure of the recursion of the writer on values.\<close>

fun vsize :: "jsval \<Rightarrow> nat" where
  "vsize (VArr vs) = Suc (sum_list (map vsize vs))"
| "vsize (VObj kvs) = Suc (sum_list (map (\<lambda>e. vsize (snd e) + 2) kvs))"
| "vsize (VVariant t v) = Suc (vsize v)"
| "vsize (VNum n) = 1"
| "vsize (VDouble w) = 1"
| "vsize (VBool b) = 1"
| "vsize (VStr s) = 1"
| "vsize VNull = 1"

lemma vsize_pos [simp]: "0 < vsize v"
  by (cases v) simp_all

lemma vsize_array_values:
  "array_values v = Inr vs \<Longrightarrow> sum_list (map vsize vs) < vsize v"
  by (cases v) (auto simp: array_values_def comp_def)

lemma vsize_js_index: "js_index vs i = Inr v \<Longrightarrow> vsize v \<le> sum_list (map vsize vs)"
  by (auto simp: js_index_def split: if_splits intro: member_le_sum_list)

text \<open>
  The \<^verbatim>\<open>write\<close> closures (\<open>write_val\<close>) and their loops: \<open>write_tuple\<close> is the \<^verbatim>\<open>for\<close> loop of the
  tuple writer over the elements that remain, with the index \<open>i\<close> of the current one;
  \<open>write_array_fixed\<close> and \<open>write_array_var\<close> are the two loops of the array writer
  over the values that remain. The buffer is passed through; the loops that record
  offsets return them with it.
\<close>

function write_val :: "desc \<Rightarrow> jsval \<Rightarrow> dynbuf \<Rightarrow> error + dynbuf"
and write_tuple :: "desc list \<Rightarrow> jsval list \<Rightarrow> nat \<Rightarrow> dynbuf \<Rightarrow> int \<Rightarrow> int list \<Rightarrow> error + dynbuf \<times> int list"
and write_array_fixed :: "desc \<Rightarrow> jsval list \<Rightarrow> dynbuf \<Rightarrow> error + dynbuf"
and write_array_var :: "desc \<Rightarrow> jsval list \<Rightarrow> dynbuf \<Rightarrow> int \<Rightarrow> int list \<Rightarrow> error + dynbuf \<times> int list"
where
  "write_val d value buf =
     (case kind d of
        KByte \<Rightarrow> (case value of VNum v \<Rightarrow> appendUInt8 v buf | _ \<Rightarrow> Inl NotInDomain)
      | KInt16 \<Rightarrow> (case value of VNum v \<Rightarrow> appendInt16 v buf | _ \<Rightarrow> Inl NotInDomain)
      | KUInt16 \<Rightarrow> (case value of VNum v \<Rightarrow> appendUInt16 v buf | _ \<Rightarrow> Inl NotInDomain)
      | KInt32 \<Rightarrow> (case value of VNum v \<Rightarrow> appendInt32 v buf | _ \<Rightarrow> Inl NotInDomain)
      | KUInt32 \<Rightarrow> (case value of VNum v \<Rightarrow> appendUInt32 v buf | _ \<Rightarrow> Inl NotInDomain)
      | KInt64 \<Rightarrow>
          (case value of
             VNum v \<Rightarrow>
               bind_e (appendUInt32 (fst (Long_fromNumber v)) buf) (\<lambda>buf.
                 appendUInt32 (snd (Long_fromNumber v)) buf)
           | _ \<Rightarrow> Inl NotInDomain)
      | KUInt64 \<Rightarrow>
          (case value of
             VNum v \<Rightarrow>
               bind_e (appendUInt32 (fst (Long_fromNumber v)) buf) (\<lambda>buf.
                 appendUInt32 (snd (Long_fromNumber v)) buf)
           | _ \<Rightarrow> Inl NotInDomain)
      | KDouble \<Rightarrow>
          (case value of
             VDouble w \<Rightarrow> Inr (appendDouble w buf)
           | VNum v \<Rightarrow> Inl NotModelled
           | _ \<Rightarrow> Inl NotInDomain)
      | KBool \<Rightarrow> appendUInt8 (if js_truthy value then 1 else 0) buf
      | KText \<Rightarrow>
          (case value of
             VStr s \<Rightarrow> appendUInt8 0 (append_text s buf)
           | _ \<Rightarrow> Inl NotInDomain)
      | KVariant \<Rightarrow>
          (case value of
             VVariant t v \<Rightarrow>
               bind_e (parseType t) (\<lambda>type.
               bind_e (write_val type v buf) (\<lambda>buf.
               bind_e (appendUInt8 0 buf) (\<lambda>buf.
                 Inr (append_text (units_of t) buf))))
           | _ \<Rightarrow> Inl NotInDomain)
      | KMaybe element \<Rightarrow>
          (let buf = buf_align (alignment d) buf in
           if value \<noteq> VNull then
             bind_e (write_val element value buf) (\<lambda>buf.
               if \<not> truthy (fixedSize element) then appendUInt8 0 buf else Inr buf)
           else Inr buf)
      | KTuple elements \<Rightarrow>
          (case value of
             VArr vs \<Rightarrow>
               (let start = buf_length buf in
                bind_e (write_tuple elements vs 0 buf start []) (\<lambda>(buf, offsets).
                  writeOffsets buf (rev offsets) start (buf_length buf)))
           | _ \<Rightarrow> Inl NotInDomain)
      | KDictEntry key val \<Rightarrow>
          (case value of
             VArr vs \<Rightarrow>
               (let start = buf_length buf in
                bind_e (js_index vs 0) (\<lambda>v0.
                bind_e (write_val key v0 buf) (\<lambda>buf.
                  let keyEnd = buf_length buf - start;
                      buf = buf_align (alignment val) buf
                  in bind_e (js_index vs 1) (\<lambda>v1.
                     bind_e (write_val val v1 buf) (\<lambda>buf.
                       if \<not> truthy (fixedSize key)
                       then writeOffsets buf [keyEnd] start (buf_length buf)
                       else Inr buf)))))
           | _ \<Rightarrow> Inl NotInDomain)
      | KArray element \<Rightarrow>
          bind_e (array_values value) (\<lambda>values.
            if truthy (fixedSize element) then write_array_fixed element values buf
            else
              (let start = buf_length buf in
               bind_e (write_array_var element values buf start []) (\<lambda>(buf, offsets).
                 writeOffsets buf offsets start (buf_length buf)))))"
| "write_tuple [] vs i buf start offsets = Inr (buf, offsets)"
| "write_tuple (el # rest) vs i buf start offsets =
     (let buf = buf_align (alignment el) buf in
      bind_e (js_index vs i) (\<lambda>v.
      bind_e (write_val el v buf) (\<lambda>buf.
        write_tuple rest vs (i + 1) buf start
          (if \<not> truthy (fixedSize el) \<and> rest \<noteq> [] then offsets @ [buf_length buf - start]
           else offsets))))"
| "write_array_fixed element [] buf = Inr buf"
| "write_array_fixed element (v # rest) buf =
     bind_e (write_val element v (buf_align (alignment element) buf)) (\<lambda>buf.
       write_array_fixed element rest buf)"
| "write_array_var element [] buf start offsets = Inr (buf, offsets)"
| "write_array_var element (v # rest) buf start offsets =
     bind_e (write_val element v (buf_align (alignment element) buf)) (\<lambda>buf.
       write_array_var element rest buf start (offsets @ [buf_length buf - start]))"
  by pat_completeness auto
termination
proof (relation "inv_image (less_than <*lex*> less_than) (\<lambda>x. case x of
     Inl (Inl (d, value, buf)) \<Rightarrow> (vsize value, size d)
   | Inl (Inr (els, vs, i, buf, start, offsets)) \<Rightarrow> (Suc (sum_list (map vsize vs)), size_list size els)
   | Inr (Inl (element, values, buf)) \<Rightarrow> (Suc (sum_list (map vsize values)), Suc (size element))
   | Inr (Inr (element, values, buf, start, offsets)) \<Rightarrow>
       (Suc (sum_list (map vsize values)), Suc (size element)))",
   goal_cases)
  case 1
  show ?case by (intro wf_inv_image wf_lex_prod wf_less_than)
next
  case 2
  then show ?case by simp
next
  case 3
  then show ?case by (simp add: size_kind_less)
next
  case 4
  then show ?case by (simp add: size_kind_less)
next
  case 5
  then show ?case using vsize_js_index by (fastforce simp: less_Suc_eq_le)
next
  case 6
  then show ?case using vsize_js_index by (fastforce simp: less_Suc_eq_le)
next
  case 7
  then show ?case using vsize_array_values by (fastforce simp: size_kind_less less_Suc_eq_le)
next
  case 8
  then show ?case using vsize_array_values by (fastforce simp: size_kind_less less_Suc_eq_le)
next
  case 9
  then show ?case using vsize_js_index by (fastforce simp: less_Suc_eq_le)
next
  case 10
  then show ?case by simp
next
  case 11
  then show ?case by simp
next
  case 12
  then show ?case by simp
next
  case 13
  then show ?case by simp
next
  case 14
  then show ?case by simp
qed

definition serialize :: "string \<Rightarrow> jsval \<Rightarrow> error + buffer" where
  "serialize typestr value =
     bind_e (parseType typestr) (\<lambda>type.
     bind_e (write_val type value []) (\<lambda>buf.
       Inr (toBuffer buf)))"

section \<open>Properties\<close>


declare read.simps [simp del] parse.simps [simp del] write_val.simps [simp del]

lemma parseType_b: "parseType ''b'' = Inr (Desc ''b'' (Some 1) 1 (VBool False) KBool)"
  by code_simp

lemma readUInt8_single: "readUInt8 [b] 0 = Inr (uint b)"
  by (simp add: readUInt8_def read_bytes_def)

text \<open>
  C9. Under the signature \<open>b\<close>, a buffer of one byte parses to \<^verbatim>\<open>true\<close> exactly when the
  byte is not zero (any non-zero byte, not only 1), and a buffer of any other length
  parses to \<^verbatim>\<open>false\<close>.
\<close>

theorem parse_boolean:
  "parse ''b'' bs = Inr (VBool (case bs of [b] \<Rightarrow> b \<noteq> 0 | _ \<Rightarrow> False))"
proof (cases bs)
  case Nil
  then show ?thesis
    by (simp add: parse.simps parseType_b read.simps)
next
  case (Cons b rest)
  show ?thesis
  proof (cases rest)
    case Nil
    with Cons show ?thesis
      by (simp add: parse.simps parseType_b read.simps readUInt8_single uint_0_iff)
  next
    case (Cons c rest')
    with \<open>bs = b # rest\<close> show ?thesis
      by (simp add: parse.simps parseType_b read.simps)
  qed
qed


lemma le_bytes_numeral [simp]:
  "le_bytes (numeral k) v = word_of_int v # le_bytes (pred_numeral k) (v div 256)"
  by (simp add: numeral_eq_Suc)






text \<open>
  C2. Decoding is not total: under the signature \<open>v\<close> the reader takes the bytes after
  the last zero byte (all of them when there is none) as a signature and parses it
  with \<open>parseType\<close>, whose TypeError leaves \<open>parse\<close>. The empty buffer and the two bytes
  \<open>00 7A\<close> are such inputs.
\<close>

theorem parse_variant_raises:
  "parse ''v'' [] = Inl TypeError_invalid_type_string \<and>
   parse ''v'' [0x00, 0x7A] = Inl TypeError_invalid_type_string"
  by code_simp

text \<open>
  C3. A variant frame without a zero byte is not read as the default value
  \<^verbatim>\<open>{ type: '()', value: [] }\<close>: the one-byte frame \<open>69\<close> gives a variant of type \<open>i\<close>,
  whatever the default of the descriptor.
\<close>

theorem read_variant_without_nul:
  "parse ''v'' [0x69] = Inr (VVariant ''i'' (VNum 0)) \<and>
   map_sum id defaultValue (parseType ''v'') = Inr (VVariant ''()'' (VArr []))"
  by code_simp

lemma parseType_unit: "parseType ''()'' = Inr (Desc ''()'' (Some 1) 1 (VArr []) (KTuple []))"
  by code_simp

lemma serialize_unit: "serialize ''()'' (VArr []) = Inr []"
  by code_simp

text \<open>
  C4. The empty tuple serializes to no byte at all, not to one zero byte; every
  one-byte buffer parses to the empty sequence under \<open>()\<close>.
\<close>

theorem unit_tuple_bytes:
  "serialize ''()'' (VArr []) = Inr [] \<and> (\<forall>b. parse ''()'' [b] = Inr (VArr []))"
  by (simp add: serialize_unit parse.simps parseType_unit read.simps truthy_def offsetInfo_def)

text \<open>
  C7. \<open>parseType\<close> accepts the truncated signature \<open>{si\<close>: the dict-entry case never
  looks for the closing brace, and \<^verbatim>\<open>substr\<close> cuts the \<^verbatim>\<open>id\<close> to what is left of the
  string, so that its length equals the length of the signature.
\<close>

theorem parseType_accepts_unclosed_dict_entry:
  "parseType ''{si'' =
     Inr (Desc ''{si'' None 4 (VArr [VStr [], VNum 0])
            (KDictEntry (Desc ''s'' None 1 (VStr []) KText)
                        (Desc ''i'' (Some 4) 4 (VNum 0) KInt32)))"
  by code_simp

text \<open>
  C1. Serializing and parsing again is not the identity: the two tuples of an \<open>a(iy)\<close>
  are written on 4-byte boundaries, 13 bytes in all, and the reader, which steps by
  the fixed size 5 of \<open>(iy)\<close>, returns the empty sequence for a length that 5 does not
  divide.
\<close>

theorem roundtrip_fails_array_of_tuples:
  "serialize ''a(iy)'' (VArr [VArr [VNum 1, VNum 2], VArr [VNum 3, VNum 4]])
     = Inr [1, 0, 0, 0, 2, 0, 0, 0, 3, 0, 0, 0, 4] \<and>
   parse ''a(iy)'' [1, 0, 0, 0, 2, 0, 0, 0, 3, 0, 0, 0, 4] = Inr (VArr [])"
  by code_simp

subsection \<open>The round trip of a scalar\<close>

lemma le_uint_le_bytes: "le_uint (le_bytes n v) = v mod 2 ^ (8 * n)"
proof (induction n arbitrary: v)
  case 0
  show ?case by simp
next
  case (Suc n)
  have "v mod (256 * 2 ^ (8 * n)) = 256 * (v div 256 mod 2 ^ (8 * n)) + v mod 256"
    by (rule zmod_zmult2_eq) simp
  moreover have "uint (word_of_int v :: byte) = v mod 256"
    by (simp add: uint_word_of_int)
  moreover have "(2::int) ^ (8 * Suc n) = 256 * 2 ^ (8 * n)"
    by (simp add: power_add)
  ultimately show ?case using Suc [of "v div 256"] by simp
qed

lemma length_le_bytes [simp]: "length (le_bytes n v) = n"
  by (induction n arbitrary: v) simp_all

lemma parseType_i: "parseType ''i'' = Inr (Desc ''i'' (Some 4) 4 (VNum 0) KInt32)"
  by code_simp

text \<open>
  On a scalar the round trip does hold: every 32-bit integer written under \<open>i\<close> is read
  back.
\<close>

lemma roundtrip_int32:
  assumes "- (2 ^ 31) \<le> n" "n < 2 ^ 31"
  shows "bind_e (serialize ''i'' (VNum n)) (parse ''i'') = Inr (VNum n)"
proof -
  have s: "serialize ''i'' (VNum n) = Inr (le_bytes 4 n)"
    using assms
    by (simp add: serialize_def parseType_i write_val.simps appendInt32_def append_int_def toBuffer_def
             del: le_bytes.simps le_bytes_numeral)
  have r: "read_bytes (le_bytes 4 n) 0 4 = Inr (le_bytes 4 n)"
    by (simp add: read_bytes_def del: le_bytes.simps le_bytes_numeral)
  have "to_signed 32 (n mod 2 ^ 32) = n"
  proof (cases "0 \<le> n")
    case True
    with assms have "n mod 2 ^ 32 = n" by simp
    with assms show ?thesis by (simp add: to_signed_def)
  next
    case False
    have "n mod 2 ^ 32 = (n + 2 ^ 32) mod 2 ^ 32" by simp
    also have "\<dots> = n + 2 ^ 32" using assms False by (intro mod_pos_pos_trivial) simp_all
    finally show ?thesis using assms False by (simp add: to_signed_def)
  qed
  then show ?thesis
    using le_uint_le_bytes [of 4 n]
    by (simp add: s parse.simps parseType_i read.simps readInt32LE_def r
             del: le_bytes.simps le_bytes_numeral)
qed

subsection \<open>Well-formed signatures\<close>

lemma char_at_append_length [simp]: "char_at (pre @ c # post) (length pre) = Some c"
  by (simp add: char_at_def)

lemma substr_append_length: "substr (pre @ s @ post) (length pre) (length s) = s"
  by (simp add: substr_def)

lemma leafType_wf:
  "c \<in> set ''ynqiuxtdbsogv'' \<Longrightarrow> \<exists>d. leafType c = Some d \<and> id_sig d = [c]"
  by (auto simp: leafType_def)

lemma leaf_not_rec:
  "c \<in> set ''ynqiuxtdbsogv'' \<Longrightarrow> c \<noteq> CHR ''m'' \<and> c \<noteq> CHR ''('' \<and> c \<noteq> CHR ''{'' \<and> c \<noteq> CHR ''a''"
  by auto

lemma wf_sig_hd: "wf_sig s \<Longrightarrow> \<exists>c r. s = c # r \<and> c \<noteq> CHR '')''"
  by (induction rule: wf_sig.induct) auto

lemma tuple_loop_parses:
  assumes "\<And>t pre post. t \<in> set ts \<Longrightarrow>
             \<exists>d. nextType (pre @ t @ post) (length pre) = Inr (Some d) \<and> id_sig d = t"
      and "\<And>t. t \<in> set ts \<Longrightarrow> \<exists>c r. t = c # r \<and> c \<noteq> CHR '')''"
  shows "\<exists>d. nextType_tuple (pre @ CHR ''('' # concat ts0 @ concat ts @ CHR '')'' # post)
               (length pre) (Suc (length pre + length (concat ts0))) els sz al = Inr (Some d)
             \<and> id_sig d = CHR ''('' # concat ts0 @ concat ts @ '')''"
  using assms
proof (induction ts arbitrary: ts0 els sz al)
  case Nil
  have "char_at (pre @ CHR ''('' # concat ts0 @ CHR '')'' # post) (Suc (length pre + length (concat ts0)))
          = Some CHR '')''"
    using char_at_append_length [of "pre @ CHR ''('' # concat ts0" "CHR '')''" post] by simp
  moreover have "slice_str (pre @ CHR ''('' # concat ts0 @ CHR '')'' # post) (length pre)
                   (Suc (Suc (length pre + length (concat ts0))))
                 = CHR ''('' # concat ts0 @ '')''"
    by (simp add: slice_str_def)
  ultimately show ?case by (simp del: nextType.simps)
next
  case (Cons t ts)
  from Cons.prems(2) [of t] obtain c r where t: "t = c # r" and c: "c \<noteq> CHR '')''"
    by auto
  let ?sig = "pre @ CHR ''('' # concat ts0 @ concat (t # ts) @ CHR '')'' # post"
  let ?e = "Suc (length pre + length (concat ts0))"
  have ch: "char_at ?sig ?e = Some c"
    using char_at_append_length [of "pre @ CHR ''('' # concat ts0" c "r @ concat ts @ CHR '')'' # post"] t
    by simp
  from Cons.prems(1) [of t "pre @ CHR ''('' # concat ts0" "concat ts @ CHR '')'' # post"]
  obtain el where el: "nextType ?sig ?e = Inr (Some el)" and id: "id_sig el = t"
    by auto
  have prems: "\<And>t' pre post. t' \<in> set ts \<Longrightarrow>
                 \<exists>d. nextType (pre @ t' @ post) (length pre) = Inr (Some d) \<and> id_sig d = t'"
              "\<And>t'. t' \<in> set ts \<Longrightarrow> \<exists>c r. t' = c # r \<and> c \<noteq> CHR '')''"
    using Cons.prems by simp_all
  from Cons.IH [OF prems, of "ts0 @ [t]" "els @ [el]"
      "fs_add (fs_align sz (alignment el)) (fixedSize el)" "max al (alignment el)"]
  obtain d where "nextType_tuple ?sig (length pre) (?e + length t) (els @ [el])
                     (fs_add (fs_align sz (alignment el)) (fixedSize el)) (max al (alignment el))
                   = Inr (Some d)"
    and "id_sig d = CHR ''('' # concat ts0 @ concat (t # ts) @ '')''"
    by (auto simp: add.assoc)
  with ch c el id show ?case
    by (subst nextType_tuple.simps) (simp add: defined_def del: nextType.simps nextType_tuple.simps)
qed

lemma wf_sig_nextType:
  "wf_sig s \<Longrightarrow> \<exists>d. nextType (pre @ s @ post) (length pre) = Inr (Some d) \<and> id_sig d = s"
proof (induction arbitrary: pre post rule: wf_sig.induct)
  case (leaf c)
  from leafType_wf [OF leaf] obtain d where "leafType c = Some d" "id_sig d = [c]" by auto
  with leaf_not_rec [OF leaf] show ?case
    by (subst nextType.simps) (simp del: nextType.simps)
next
  case (maybe t)
  from maybe.IH [of "pre @ ''m''" post]
  obtain el where "nextType (pre @ CHR ''m'' # t @ post) (Suc (length pre)) = Inr (Some el)"
    and "id_sig el = t" by auto
  then show ?case
    using substr_append_length [of pre "CHR ''m'' # t" post]
    by (subst nextType.simps) (simp add: defined_def del: nextType.simps)
next
  case (array t)
  from array.IH [of "pre @ ''a''" post]
  obtain el where "nextType (pre @ CHR ''a'' # t @ post) (Suc (length pre)) = Inr (Some el)"
    and "id_sig el = t" by auto
  then show ?case
    using substr_append_length [of pre "CHR ''a'' # t" post]
    by (subst nextType.simps) (simp add: defined_def del: nextType.simps)
next
  case (tuple ts)
  have hd: "\<And>t. t \<in> set ts \<Longrightarrow> \<exists>c r. t = c # r \<and> c \<noteq> CHR '')''"
    using tuple.hyps wf_sig_hd by blast
  from tuple_loop_parses [OF tuple.IH hd, where ?ts0.0 = "[]" and pre = pre and post = post
      and els = "[]" and sz = "Some 0" and al = 1]
  show ?case
    by (subst nextType.simps) (simp del: nextType.simps nextType_tuple.simps)
next
  case (entry k v)
  from entry.IH(1) [of "pre @ ''{''" "v @ CHR ''}'' # post"]
  obtain dk where dk: "nextType (pre @ CHR ''{'' # k @ v @ CHR ''}'' # post) (Suc (length pre)) = Inr (Some dk)"
    and idk: "id_sig dk = k" by auto
  from entry.IH(2) [of "pre @ CHR ''{'' # k" "CHR ''}'' # post"]
  obtain dv where dv: "nextType (pre @ CHR ''{'' # k @ v @ CHR ''}'' # post) (Suc (length pre + length k)) = Inr (Some dv)"
    and idv: "id_sig dv = v" by auto
  from dk idk dv idv show ?case
    using substr_append_length [of pre "CHR ''{'' # k @ v @ ''}''" post]
    by (subst nextType.simps) (simp add: defined_def del: nextType.simps)
qed

text \<open>
  Every well-formed signature is accepted by \<open>parseType\<close>, with the whole signature as
  the \<^verbatim>\<open>id\<close> of the descriptor; an error of \<open>parseType\<close> is the error of \<open>parse\<close> and of
  \<open>serialize\<close>.
\<close>

theorem parseType_well_formed:
  assumes "wf_sig s"
  shows "\<exists>d. parseType s = Inr d \<and> id_sig d = s"
proof -
  from wf_sig_nextType [OF assms, of "[]" "[]"]
  show ?thesis by (auto simp: parseType_def simp del: nextType.simps)
qed

theorem parseType_error_propagates:
  assumes "parseType s = Inl e"
  shows "parse s b = Inl e \<and> serialize s v = Inl e"
  using assms by (simp add: parse.simps serialize_def)

subsection \<open>The offset-out-of-range error\<close>







subsection \<open>Descriptors built by the parser\<close>

lemma desc_inv_alt:
  "desc_inv d =
     (0 < alignment d \<and> (case fixedSize d of None \<Rightarrow> True | Some n \<Rightarrow> 0 < n)
      \<and> kind_inv (id_sig d) (kind d))"
  by (cases d) simp

lemma js_rem_nonneg: "0 \<le> a \<Longrightarrow> 0 < b \<Longrightarrow> js_rem a b = a mod b"
  by (simp add: js_rem_def sgn_if)

lemma align_ge: "0 \<le> n \<Longrightarrow> 0 < a \<Longrightarrow> n \<le> align n a"
proof -
  assume n: "0 \<le> n" and a: "0 < a"
  have "0 \<le> a - n mod a" using a by (simp add: pos_mod_bound less_imp_le)
  then have "js_rem (a - js_rem n a) a = (a - n mod a) mod a"
    using n a by (simp add: js_rem_nonneg)
  moreover have "0 \<le> (a - n mod a) mod a" using a by simp
  ultimately show ?thesis by (simp add: align_def)
qed

lemma leafType_inv: "leafType c = Some d \<Longrightarrow> desc_inv d"
  unfolding leafType_def by (simp split: if_split_asm; clarsimp)

lemma char_at_substr_0: "i < length s \<Longrightarrow> char_at (substr s i (Suc n)) 0 = char_at s i"
  by (simp add: char_at_def substr_def hd_drop_conv_nth flip: hd_conv_nth)

lemma fs_add_align_pos:
  assumes "case sz of None \<Rightarrow> True | Some n \<Rightarrow> 0 \<le> n"
      and "0 < a" and "case fs of None \<Rightarrow> True | Some n \<Rightarrow> 0 < n"
  shows "case fs_add (fs_align sz a) fs of None \<Rightarrow> True | Some n \<Rightarrow> 0 < n"
proof (cases sz)
  case None
  then show ?thesis by (simp add: fs_add_def fs_align_def)
next
  case (Some n)
  with assms have "0 \<le> align n a" using align_ge [of n a] by simp
  with Some assms show ?thesis
    by (cases fs) (simp_all add: fs_add_def fs_align_def)
qed

lemma nextType_inv:
  "nextType signature index = Inr (Some d) \<Longrightarrow> desc_inv d"
  "nextType_tuple signature index e els sz al = Inr (Some d) \<Longrightarrow>
     list_all desc_inv els \<Longrightarrow> (case sz of None \<Rightarrow> True | Some n \<Rightarrow> 0 \<le> n) \<Longrightarrow> 0 < al \<Longrightarrow>
     desc_inv d"
proof (induct signature index and signature index e els sz al arbitrary: d and d
       rule: nextType_nextType_tuple.induct)
  case (1 signature index)
  from 1(6) obtain c where c: "char_at signature index = Some c"
    by (cases "char_at signature index") simp_all
  then have lt: "index < length signature" by (rule char_at_Some)
  consider (m) "c = CHR ''m''" | (t) "c = CHR ''(''" | (e) "c = CHR ''{''" | (a) "c = CHR ''a''"
    | (leaf) "c \<noteq> CHR ''m''" "c \<noteq> CHR ''(''" "c \<noteq> CHR ''{''" "c \<noteq> CHR ''a''"
    by blast
  then show ?case
  proof cases
    case m
    with 1(6) c obtain el where el: "nextType signature (index + 1) = Inr (Some el)"
      and d: "d = Desc (substr signature index (length (id_sig el) + 1)) None (alignment el) VNull (KMaybe el)"
      by (auto simp: bind_e_Inr)
    from 1(1) [OF c m el] have "desc_inv el" .
    with d show ?thesis by (simp add: desc_inv_alt [of el])
  next
    case t
    with 1(6) c have "nextType_tuple signature index (index + 1) [] (Some 0) 1 = Inr (Some d)"
      by simp
    moreover from t have "c \<noteq> CHR ''m''" by simp
    ultimately show ?thesis using 1(2) [OF c _ t] by simp
  next
    case e
    with 1(6) c obtain k v where k: "nextType signature (index + 1) = Inr (Some k)"
      and v: "nextType signature (index + 1 + length (id_sig k)) = Inr (Some v)"
      and d: "d = Desc (substr signature index (length (id_sig k) + length (id_sig v) + 2))
                   (fs_add (fs_align (fixedSize k) (alignment v)) (fixedSize v))
                   (max (alignment k) (alignment v))
                   (VArr [defaultValue k, defaultValue v]) (KDictEntry k v)"
      by (auto simp: bind_e_Inr)
    from e have ne: "c \<noteq> CHR ''m''" "c \<noteq> CHR ''(''" by simp_all
    from 1(3) [OF c ne e k] have ik: "desc_inv k" .
    from 1(4) [OF c ne e k _ v] have iv: "desc_inv v" by simp
    have "case fixedSize k of None \<Rightarrow> True | Some n \<Rightarrow> 0 \<le> n"
      using ik by (auto simp: desc_inv_alt [of k] split: option.splits)
    then have "case fs_add (fs_align (fixedSize k) (alignment v)) (fixedSize v) of
                 None \<Rightarrow> True | Some n \<Rightarrow> 0 < n"
      using iv by (intro fs_add_align_pos) (simp_all add: desc_inv_alt [of v])
    moreover have "char_at (substr signature index (length (id_sig k) + length (id_sig v) + 2)) 0
                     = Some CHR ''{''"
      using char_at_substr_0 [OF lt, of "length (id_sig k) + length (id_sig v) + 1"] c e by simp
    ultimately show ?thesis
      using d ik iv by (simp add: desc_inv_alt [of k] desc_inv_alt [of v] less_max_iff_disj)
  next
    case a
    with 1(6) c obtain el where el: "nextType signature (index + 1) = Inr (Some el)"
      and d: "d = Desc (substr signature index (length (id_sig el) + 1)) None (alignment el) (VArr []) (KArray el)"
      by (auto simp: bind_e_Inr)
    from a have na: "c \<noteq> CHR ''m''" "c \<noteq> CHR ''(''" "c \<noteq> CHR ''{''" by simp_all
    from 1(5) [OF c na a el] have "desc_inv el" .
    with d show ?thesis by (simp add: desc_inv_alt [of el])
  next
    case leaf
    with 1(6) c have "leafType c = Some d" by simp
    then show ?thesis by (rule leafType_inv)
  qed
next
  case (2 signature index e els sz al)
  show ?case
  proof (cases "char_at signature e = Some CHR '')''")
    case True
    with 2(3) have d: "d = Desc (slice_str signature index (e + 1))
                          (if sz = Some 0 then Some 1 else sz) al
                          (VArr (map defaultValue els)) (KTuple els)"
      by simp
    show ?thesis
      using 2(4) 2(5) 2(6) by (cases sz) (auto simp: d)
  next
    case False
    with 2(3) obtain el where el: "nextType signature e = Inr (Some el)"
      and rest: "nextType_tuple signature index (e + length (id_sig el)) (els @ [el])
                   (fs_add (fs_align sz (alignment el)) (fixedSize el)) (max al (alignment el))
                 = Inr (Some d)"
      by (auto simp: bind_e_Inr)
    from 2(1) [OF False el] have iel: "desc_inv el" .
    have "case fs_add (fs_align sz (alignment el)) (fixedSize el) of None \<Rightarrow> True | Some n \<Rightarrow> 0 < n"
      using 2(5) iel by (intro fs_add_align_pos) (simp_all add: desc_inv_alt [of el])
    then have sz': "case fs_add (fs_align sz (alignment el)) (fixedSize el) of
                      None \<Rightarrow> True | Some n \<Rightarrow> 0 \<le> n"
      by (auto split: option.splits)
    show ?thesis
      using 2(2) [OF False el _ rest _ sz'] 2(4) 2(6) iel by (simp add: less_max_iff_disj)
  qed
qed


text \<open>
  C10. For an array of fixed-size dict-entries \<open>a{KV}\<close>, as \<open>nextType\<close> builds its
  descriptor from any signature, a non-empty frame whose length is not a multiple of
  the fixed size of the entry reads as the empty sequence \<^verbatim>\<open>[]\<close>, and the empty frame
  reads as the empty mapping \<^verbatim>\<open>{}\<close>.
\<close>

theorem array_of_fixed_dict_entries:
  assumes d: "nextType signature index = Inr (Some d)"
      and arr: "kind d = KArray element"
      and ent: "kind element = KDictEntry k v"
      and fixed: "fixedSize element = Some n"
  shows "(start < endp \<and> (endp - start) mod n \<noteq> 0 \<longrightarrow> read d buf start endp = Inr (VArr [])) \<and>
         read d buf start start = Inr (VObj [])"
proof -
  from nextType_inv(1) [OF d] have "desc_inv d" .
  with arr have "desc_inv element" by (simp add: desc_inv_alt [of d])
  with ent fixed have n: "0 < n" and brace: "char_at (id_sig element) 0 = Some CHR ''{''"
    by (simp_all add: desc_inv_alt [of element])
  have empty: "read d buf start start = Inr (VObj [])"
    by (simp add: read.simps [of d] arr brace)
  have "read d buf start endp = Inr (VArr [])" if "start < endp" "(endp - start) mod n \<noteq> 0"
    using that n by (simp add: read.simps [of d] arr truthy_def fixed js_rem_nonneg)
  with empty show ?thesis by blast
qed

lemma nextType_a_iy:
  "nextType ''a{iy}'' 0 =
     Inr (Some (Desc ''a{iy}'' None 4 (VArr [])
       (KArray (Desc ''{iy}'' (Some 5) 4 (VArr [VNum 0, VNum 0])
          (KDictEntry (Desc ''i'' (Some 4) 4 (VNum 0) KInt32) (Desc ''y'' (Some 1) 1 (VNum 0) KByte))))))"
  by code_simp

lemma parseType_a_iy:
  "parseType ''a{iy}'' =
     Inr (Desc ''a{iy}'' None 4 (VArr [])
       (KArray (Desc ''{iy}'' (Some 5) 4 (VArr [VNum 0, VNum 0])
          (KDictEntry (Desc ''i'' (Some 4) 4 (VNum 0) KInt32) (Desc ''y'' (Some 1) 1 (VNum 0) KByte)))))"
  by code_simp

theorem array_of_fixed_dict_entries_witness:
  "parse ''a{iy}'' [1, 0, 0, 0, 2, 0, 0, 0, 3, 0, 0, 0, 4] = Inr (VArr []) \<and>
   parse ''a{iy}'' [] = Inr (VObj [])"
  using array_of_fixed_dict_entries [OF nextType_a_iy, where n = 5 and start = 0 and endp = 13
          and buf = "[1, 0, 0, 0, 2, 0, 0, 0, 3, 0, 0, 0, 4]"]
        array_of_fixed_dict_entries [OF nextType_a_iy, where n = 5 and start = 0 and buf = "[]"]
  by (simp add: parse.simps parseType_a_iy)

subsection \<open>Text\<close>








lemma readUInt8_in_range:
  "0 \<le> i \<Longrightarrow> i < int (length buf) \<Longrightarrow> readUInt8 buf i = Inr (uint (buf ! nat i))"
  by (simp add: readUInt8_def read_bytes_def flip: Cons_nth_drop_Suc)

lemma to_int32_id: "- (2 ^ 31) \<le> x \<Longrightarrow> x < 2 ^ 31 \<Longrightarrow> to_int32 x = x"
  by (simp add: to_int32_def)


lemma read_text_long:
  assumes "0 \<le> start" and "start < endp" and "endp \<le> int (length buf)"
      and "buf ! nat (endp - 1) = 0"
      and "endp \<le> 2 ^ 31" and "MAX_STRING_LENGTH < endp - 1 - start"
  shows "read (Desc [c] None 1 (VStr []) KText) buf start endp = Inl Error_string_too_long"
proof -
  have last: "0 \<le> endp - 1" "endp - 1 < int (length buf)"
    using assms by simp_all
  have "to_int32 start = start" "to_int32 (endp - 1) = endp - 1"
    using assms by (simp_all add: to_int32_id)
  with assms have "toString_range buf start (endp - 1) = Inl Error_string_too_long"
    by (auto simp: toString_range_def Let_def MAX_STRING_LENGTH_def)
  with assms show ?thesis
    by (simp add: read.simps readUInt8_in_range [OF last] toString_utf8_def)
qed

lemma parseType_s: "parseType ''s'' = Inr (Desc ''s'' None 1 (VStr []) KText)"
  by code_simp

text \<open>
  C8 as stated fails for a long text: under the signature \<open>s\<close>, a buffer of \<open>0x1fffffe9\<close>
  bytes \<open>61\<close> and a closing zero byte is a frame whose last byte is zero, and the reader
  raises \<^verbatim>\<open>ERR_STRING_TOO_LONG\<close> where the decoding of the bytes before it is expected.
\<close>

theorem parse_text_too_long:
  "parse ''s'' (replicate 536870889 0x61 @ [0]) = Inl Error_string_too_long"
proof -
  let ?buf = "replicate 536870889 (0x61 :: byte) @ [0]"
  have len: "int (length ?buf) = 536870890"
    by (simp only: length_append length_replicate list.size of_nat_add of_nat_numeral)
  have nth: "?buf ! nat (536870890 - 1) = 0"
    by (simp add: nth_append)
  have "read (Desc ''s'' None 1 (VStr []) KText) ?buf 0 536870890 = Inl Error_string_too_long"
    using len nth by (intro read_text_long) (simp_all add: MAX_STRING_LENGTH_def)
  then show ?thesis
    by (simp only: parse.simps parseType_s bind_e_simps len)
qed




end
